theory Spec2Isabelle
  imports Complex_Main "HOL-Library.Multiset" "HOL-Library.AList"
begin

section \<open>The news digest builder \<^verbatim>\<open>scripts/build_news_json.py\<close>\<close>

text \<open>
  The script reads an OPML list of feeds, fetches every feed, normalises the entries,
  keeps the recent ones, deduplicates them by link and writes them sorted by date.
  The theory embeds its functions one by one, under their own names, and proves the
  properties stated for them.

  Python strings are modelled as \<^typ>\<open>string\<close> (the UTF-8 bytes of the text): emptiness,
  substring search for an ASCII needle and the removal of trailing \<^verbatim>\<open>/\<close> agree on bytes and
  on code points. Functions of the Python library whose full behaviour is not part of the
  script (\<^verbatim>\<open>str.lower\<close>, \<^verbatim>\<open>datetime.fromisoformat\<close>, \<^verbatim>\<open>datetime.isoformat\<close>,
  \<^verbatim>\<open>time.mktime\<close>, \<^verbatim>\<open>datetime.timestamp\<close>) are fields of a record \<open>pylib\<close> that every
  function of the script receives. The calls that the script wraps in \<^verbatim>\<open>try\<close>
  (\<^verbatim>\<open>fromisoformat\<close>, \<^verbatim>\<open>timestamp\<close>) return \<open>None\<close> where they raise. The script does
  not guard \<^verbatim>\<open>time.mktime\<close> and \<^verbatim>\<open>datetime.fromtimestamp\<close>; they are applied to times
  that the feed parser has already parsed, and are modelled where they return.
\<close>

subsection \<open>Library values\<close>

datatype py_error = TypeError | SystemExit

text \<open>
  A \<^verbatim>\<open>datetime\<close>: the reading of its calendar and clock fields, in microseconds
  counted from 1970-01-01T00:00:00 on that same clock, and its \<^verbatim>\<open>tzinfo\<close>: \<open>None\<close> for a
  naive value, the offset from UTC in microseconds for an aware one.
\<close>

record datetime =
  wall :: int
  tzinfo :: "int option"

text \<open>\<^verbatim>\<open>time.struct_time\<close>, a tuple of nine integers (never empty, hence always truthy).\<close>

datatype struct_time = StructTime int int int int int int int int int

record pylib =
  str_lower :: "string \<Rightarrow> string"
  fromisoformat :: "string \<Rightarrow> datetime option"
  isoformat :: "datetime \<Rightarrow> string"
  mktime :: "struct_time \<Rightarrow> int"
  timestamp :: "datetime \<Rightarrow> real option"

text \<open>The instant of an aware value on the UTC time line.\<close>

definition utc_instant :: "datetime \<Rightarrow> int" where
  "utc_instant d = wall d - (case tzinfo d of None \<Rightarrow> 0 | Some off \<Rightarrow> off)"

text \<open>
  \<^verbatim>\<open>a < b\<close> and \<^verbatim>\<open>a <= b\<close> on datetimes: two aware values compare by instant, two naive
  values by their fields, and a naive value against an aware one raises \<^verbatim>\<open>TypeError\<close>.
\<close>

definition dt_less :: "datetime \<Rightarrow> datetime \<Rightarrow> py_error + bool" where
  "dt_less a b =
     (case (tzinfo a, tzinfo b) of
        (None, None) \<Rightarrow> Inr (wall a < wall b)
      | (Some x, Some y) \<Rightarrow> Inr (wall a - x < wall b - y)
      | _ \<Rightarrow> Inl TypeError)"

definition dt_le :: "datetime \<Rightarrow> datetime \<Rightarrow> py_error + bool" where
  "dt_le a b =
     (case (tzinfo a, tzinfo b) of
        (None, None) \<Rightarrow> Inr (wall a \<le> wall b)
      | (Some x, Some y) \<Rightarrow> Inr (wall a - x \<le> wall b - y)
      | _ \<Rightarrow> Inl TypeError)"

text \<open>\<^verbatim>\<open>d.replace(tzinfo=timezone.utc)\<close>: the fields stay, the zone becomes UTC.\<close>

definition replace_tzinfo_utc :: "datetime \<Rightarrow> datetime" where
  "replace_tzinfo_utc d = d\<lparr>tzinfo := Some 0\<rparr>"

text \<open>
  \<^verbatim>\<open>datetime.fromtimestamp(t, tz=timezone.utc)\<close> for a whole number \<open>t\<close> of seconds, which
  is what \<^verbatim>\<open>time.mktime\<close> returns.
\<close>

definition fromtimestamp_utc :: "int \<Rightarrow> datetime" where
  "fromtimestamp_utc t = \<lparr>wall = t * 1000000, tzinfo = Some 0\<rparr>"

text \<open>Truthiness of an optional string, and \<^verbatim>\<open>a or b\<close> on such values.\<close>

definition truthy :: "string option \<Rightarrow> bool" where
  "truthy v = (case v of None \<Rightarrow> False | Some s \<Rightarrow> s \<noteq> [])"

definition py_or :: "string option \<Rightarrow> string option \<Rightarrow> string option" where
  "py_or a b = (if truthy a then a else b)"

text \<open>\<^verbatim>\<open>a or ""\<close>-style defaults: the first operand when truthy, else the string given.\<close>

definition or_str :: "string option \<Rightarrow> string \<Rightarrow> string" where
  "or_str a d = (case a of None \<Rightarrow> d | Some s \<Rightarrow> if s = [] then d else s)"

text \<open>\<^verbatim>\<open>k in t\<close> on strings: \<open>k\<close> occurs in \<open>t\<close> as a contiguous substring.\<close>

fun starts_with :: "string \<Rightarrow> string \<Rightarrow> bool" where
  "starts_with [] t = True"
| "starts_with (k # ks) [] = False"
| "starts_with (k # ks) (c # cs) = (k = c \<and> starts_with ks cs)"

fun str_in :: "string \<Rightarrow> string \<Rightarrow> bool" where
  "str_in k [] = (k = [])"
| "str_in k (c # cs) = (starts_with k (c # cs) \<or> str_in k cs)"

text \<open>\<^verbatim>\<open>s.rstrip("/")\<close>: every trailing \<^verbatim>\<open>/\<close> is removed.\<close>

definition rstrip_slash :: "string \<Rightarrow> string" where
  "rstrip_slash s = rev (dropWhile (\<lambda>c. c = CHR ''/'') (rev s))"

text \<open>\<^verbatim>\<open>sep.join(xs)\<close>.\<close>

fun str_join :: "string \<Rightarrow> string list \<Rightarrow> string" where
  "str_join sep [] = []"
| "str_join sep [x] = x"
| "str_join sep (x # y # ys) = x @ sep @ str_join sep (y # ys)"

subsection \<open>The category table and \<^verbatim>\<open>guess_category_from_title\<close>\<close>

text \<open>The dictionary \<^verbatim>\<open>CATEGORY_KEYWORDS\<close>, in its order of declaration.\<close>

definition CATEGORY_KEYWORDS :: "(string \<times> string list) list" where
  "CATEGORY_KEYWORDS =
    [(''crypto'', [''crypto'', ''blockchain'']),
     (''cybercrime'', [''cybercrime'', ''darknet'']),
     (''dfir'', [''dfir'', ''forensics'']),
     (''general'', [''general'', ''security news'', ''infosec'']),
     (''gov_cert'', [''cert'', ''government'', ''gov'']),
     (''leaks'', [''leaks'', ''breaches'', ''pwned'']),
     (''malware'', [''malware'', ''ransomware'']),
     (''threat_intel'', [''threat intel'', ''apt'', ''campaigns'']),
     (''malware_analysis'', [''malware analysis'', ''reversing'']),
     (''osint'', [''osint'', ''communities'']),
     (''podcasts'', [''podcast'']),
     (''vendors'', [''vendor'']),
     (''vulns'', [''vulnerab'', ''cve'']),
     (''exploits'', [''exploit'', ''0day'']),
     (''vuln_advisories'', [''advisories'', ''advisory''])]"

text \<open>
  The loop of \<^verbatim>\<open>guess_category_from_title\<close> over the table: the first category one of
  whose keywords is in \<open>t\<close> is returned, and \<^verbatim>\<open>"general"\<close> after the last.
\<close>

fun scan_categories :: "string \<Rightarrow> (string \<times> string list) list \<Rightarrow> string" where
  "scan_categories t [] = ''general''"
| "scan_categories t ((cat, keywords) # rest) =
     (if list_ex (\<lambda>k. str_in k t) keywords then cat else scan_categories t rest)"

definition guess_category_from_title :: "pylib \<Rightarrow> string \<Rightarrow> string" where
  "guess_category_from_title L title =
     (let t = str_lower L title in scan_categories t CATEGORY_KEYWORDS)"

subsection \<open>The subscription list: \<^verbatim>\<open>parse_opml\<close>\<close>

text \<open>
  An element of the parsed OPML tree (\<^verbatim>\<open>xml.etree.ElementTree.Element\<close>): its tag, its
  attribute dictionary and its children in document order.
\<close>

datatype element = Element (tag: string) (attrib: "(string \<times> string) list") (children: "element list")

text \<open>All elements below \<open>e\<close>, in document order (the axis \<^verbatim>\<open>.//\<close>).\<close>

fun descendants :: "element \<Rightarrow> element list" where
  "descendants (Element t a cs) = concat (map (\<lambda>c. c # descendants c) cs)"

text \<open>\<^verbatim>\<open>e.findall(".//outline")\<close> and \<^verbatim>\<open>e.find("body")\<close>.\<close>

definition findall_outline :: "element \<Rightarrow> element list" where
  "findall_outline e = filter (\<lambda>c. tag c = ''outline'') (descendants e)"

definition find_body :: "element \<Rightarrow> element option" where
  "find_body e = List.find (\<lambda>c. tag c = ''body'') (children e)"

type_synonym feed = "string \<times> string \<times> string"

text \<open>
  The loop of \<^verbatim>\<open>parse_opml\<close> over the outline elements, with its two accumulators
  \<^verbatim>\<open>feeds\<close> and \<^verbatim>\<open>seen\<close>.
\<close>

fun outline_loop :: "pylib \<Rightarrow> element list \<Rightarrow> feed list \<Rightarrow> string set \<Rightarrow> feed list" where
  "outline_loop L [] feeds seen = feeds"
| "outline_loop L (elem # rest) feeds seen =
     (case map_of (attrib elem) ''xmlUrl'' of
        None \<Rightarrow> outline_loop L rest feeds seen
      | Some xml_url \<Rightarrow>
          if xml_url = [] \<or> xml_url \<in> seen then outline_loop L rest feeds seen
          else
            let title = or_str (py_or (map_of (attrib elem) ''title'')
                                      (map_of (attrib elem) ''text'')) xml_url;
                cat = guess_category_from_title L
                        (str_join '' / ''
                          (filter (\<lambda>s. s \<noteq> [])
                            [or_str (py_or (map_of (attrib elem) ''title'')
                                           (map_of (attrib elem) ''text'')) []]))
            in outline_loop L rest (feeds @ [(title, xml_url, cat)]) (insert xml_url seen))"

definition parse_opml :: "pylib \<Rightarrow> element \<Rightarrow> feed list" where
  "parse_opml L tree_root =
     (case find_body tree_root of
        None \<Rightarrow> []
      | Some body \<Rightarrow> outline_loop L (findall_outline body) [] {})"

subsection \<open>Normalising one entry: \<^verbatim>\<open>parse_entry\<close>\<close>

text \<open>
  A feed entry as \<^verbatim>\<open>parse_entry\<close> reads it: each field is the value of one access of the
  source, \<open>None\<close> when the attribute or key is absent. \<open>attr_x\<close> is
  \<^verbatim>\<open>getattr(entry, "x", None)\<close> and \<open>get_x\<close> is \<^verbatim>\<open>entry.get("x")\<close>.
\<close>

record raw_entry =
  attr_title :: "string option"
  get_title :: "string option"
  attr_link :: "string option"
  get_link :: "string option"
  attr_summary :: "string option"
  get_summary :: "string option"
  get_description :: "string option"
  published_parsed :: "struct_time option"
  updated_parsed :: "struct_time option"
  get_published :: "string option"
  get_updated :: "string option"

text \<open>The dictionary \<^verbatim>\<open>parse_entry\<close> returns.\<close>

record news_item =
  title :: string
  link :: string
  summary :: string
  source :: string
  category :: string
  published :: "string option"

text \<open>Lines 95 to 108: the variable \<^verbatim>\<open>published\<close> of \<^verbatim>\<open>parse_entry\<close>.\<close>

definition entry_published :: "pylib \<Rightarrow> raw_entry \<Rightarrow> datetime option" where
  "entry_published L entry =
     (case published_parsed entry of
        Some st \<Rightarrow> Some (fromtimestamp_utc (mktime L st))
      | None \<Rightarrow>
         (case updated_parsed entry of
            Some st \<Rightarrow> Some (fromtimestamp_utc (mktime L st))
          | None \<Rightarrow>
             (case py_or (get_published entry) (get_updated entry) of
                None \<Rightarrow> None
              | Some raw_date \<Rightarrow>
                  if raw_date = [] then None
                  else
                    (case fromisoformat L raw_date of
                       None \<Rightarrow> None
                     | Some d \<Rightarrow>
                         Some (if tzinfo d = None then replace_tzinfo_utc d else d)))))"

definition parse_entry :: "pylib \<Rightarrow> raw_entry \<Rightarrow> string \<Rightarrow> string \<Rightarrow> news_item option" where
  "parse_entry L entry source_title cat =
     (case (py_or (attr_title entry) (get_title entry),
            py_or (attr_link entry) (get_link entry)) of
        (Some t, Some l) \<Rightarrow>
          if t = [] \<or> l = [] then None
          else Some \<lparr>title = t, link = l,
                     summary = or_str (attr_summary entry)
                                 (or_str (get_summary entry)
                                   (or_str (get_description entry) [])),
                     source = source_title, category = cat,
                     published = map_option (isoformat L) (entry_published L entry)\<rparr>
      | _ \<Rightarrow> None)"

subsection \<open>The aggregation loop of \<^verbatim>\<open>main\<close>\<close>

definition DAYS_BACK :: int where
  "DAYS_BACK = 30"

text \<open>
  \<^verbatim>\<open>datetime.now(timezone.utc) - timedelta(days=DAYS_BACK)\<close>, where \<open>now\<close> is the reading
  of the clock in microseconds since the epoch.
\<close>

definition cutoff_of :: "int \<Rightarrow> datetime" where
  "cutoff_of now = \<lparr>wall = now - DAYS_BACK * 86400000000, tzinfo = Some 0\<rparr>"

text \<open>Lines 141 to 150: the variable \<^verbatim>\<open>pub_dt\<close>.\<close>

definition pub_dt_of :: "pylib \<Rightarrow> news_item \<Rightarrow> datetime option" where
  "pub_dt_of L item =
     (case published item of
        None \<Rightarrow> None
      | Some pub_str \<Rightarrow>
          if pub_str = [] then None
          else
            (case fromisoformat L pub_str of
               None \<Rightarrow> None
             | Some d \<Rightarrow> Some (if tzinfo d = None then replace_tzinfo_utc d else d)))"

text \<open>Lines 158 to 163: the variable \<^verbatim>\<open>existing_dt\<close>.\<close>

definition existing_dt_of :: "pylib \<Rightarrow> news_item \<Rightarrow> datetime option" where
  "existing_dt_of L existing =
     (case published existing of
        None \<Rightarrow> None
      | Some s \<Rightarrow> if s = [] then None else fromisoformat L s)"

type_synonym items_dict = "(string \<times> news_item) list"

text \<open>
  The dictionary \<^verbatim>\<open>all_items\<close> is an association list in insertion order;
  \<^verbatim>\<open>all_items[k] = v\<close> is \<^const>\<open>AList.update\<close>, which replaces the value of a key in
  place and appends a new key at the end, as a Python dictionary does.

  Lines 141 to 166, the body of the inner loop for an entry that \<^verbatim>\<open>parse_entry\<close> accepted:
  the recency filter, then the merge under the link without its trailing slashes.
\<close>

definition merge_item :: "pylib \<Rightarrow> datetime \<Rightarrow> news_item \<Rightarrow> items_dict \<Rightarrow> py_error + items_dict" where
  "merge_item L cutoff item all_items =
     (let pub_dt = pub_dt_of L item in
      case (case pub_dt of None \<Rightarrow> Inr False | Some p \<Rightarrow> dt_less p cutoff) of
        Inl err \<Rightarrow> Inl err
      | Inr True \<Rightarrow> Inr all_items
      | Inr False \<Rightarrow>
          let lnk = rstrip_slash (link item) in
          (case map_of all_items lnk of
             None \<Rightarrow> Inr (AList.update lnk item all_items)
           | Some existing \<Rightarrow>
              (case (existing_dt_of L existing, pub_dt) of
                 (Some e, Some p) \<Rightarrow>
                   (case dt_le p e of
                      Inl err \<Rightarrow> Inl err
                    | Inr True \<Rightarrow> Inr all_items
                    | Inr False \<Rightarrow> Inr (AList.update lnk item all_items))
               | _ \<Rightarrow> Inr (AList.update lnk item all_items))))"

text \<open>Lines 138 to 166: one turn of the inner loop.\<close>

definition merge_entry ::
  "pylib \<Rightarrow> datetime \<Rightarrow> string \<Rightarrow> string \<Rightarrow> raw_entry \<Rightarrow> items_dict \<Rightarrow> py_error + items_dict" where
  "merge_entry L cutoff feed_title cat entry all_items =
     (case parse_entry L entry feed_title cat of
        None \<Rightarrow> Inr all_items
      | Some item \<Rightarrow> merge_item L cutoff item all_items)"

text \<open>The inner loop over the entries of one feed, and the outer loop over the feeds.\<close>

fun merge_entries ::
  "pylib \<Rightarrow> datetime \<Rightarrow> string \<Rightarrow> string \<Rightarrow> raw_entry list \<Rightarrow> items_dict \<Rightarrow> py_error + items_dict" where
  "merge_entries L cutoff feed_title cat [] all_items = Inr all_items"
| "merge_entries L cutoff feed_title cat (entry # rest) all_items =
     (case merge_entry L cutoff feed_title cat entry all_items of
        Inl err \<Rightarrow> Inl err
      | Inr all_items' \<Rightarrow> merge_entries L cutoff feed_title cat rest all_items')"

text \<open>
  \<open>fetch\<close> is \<^verbatim>\<open>feedparser.parse(xml_url).entries\<close>. The list of feeds has no URL twice
  when it comes from \<^verbatim>\<open>parse_opml\<close>, so each URL is fetched once in a run.
\<close>

fun merge_feeds ::
  "pylib \<Rightarrow> (string \<Rightarrow> raw_entry list) \<Rightarrow> datetime \<Rightarrow> feed list \<Rightarrow> items_dict \<Rightarrow> py_error + items_dict" where
  "merge_feeds L fetch cutoff [] all_items = Inr all_items"
| "merge_feeds L fetch cutoff ((feed_title, xml_url, cat) # rest) all_items =
     (case merge_entries L cutoff feed_title cat (fetch xml_url) all_items of
        Inl err \<Rightarrow> Inl err
      | Inr all_items' \<Rightarrow> merge_feeds L fetch cutoff rest all_items')"

text \<open>Lines 128 to 166: the cutoff is computed once, and the loops start from the empty dictionary.\<close>

definition aggregate ::
  "pylib \<Rightarrow> int \<Rightarrow> feed list \<Rightarrow> (string \<Rightarrow> raw_entry list) \<Rightarrow> py_error + items_dict" where
  "aggregate L now feeds fetch = merge_feeds L fetch (cutoff_of now) feeds []"

subsection \<open>Sorting and the snapshot\<close>

text \<open>The local function \<^verbatim>\<open>sort_key\<close> of \<^verbatim>\<open>main\<close>.\<close>

definition sort_key_py :: "pylib \<Rightarrow> news_item \<Rightarrow> real" where
  "sort_key_py L x =
     (case published x of
        None \<Rightarrow> 0
      | Some p \<Rightarrow>
          if p = [] then 0
          else
            (case fromisoformat L p of
               None \<Rightarrow> 0
             | Some d \<Rightarrow> (case timestamp L d of None \<Rightarrow> 0 | Some t \<Rightarrow> t)))"

text \<open>
  \<^verbatim>\<open>list(all_items.values())\<close> followed by \<^verbatim>\<open>items_list.sort(key=sort_key, reverse=True)\<close>:
  a stable sort in which every comparison is reversed, that is a stable sort by the
  negated key.
\<close>

definition sorted_items :: "pylib \<Rightarrow> items_dict \<Rightarrow> news_item list" where
  "sorted_items L all_items = sort_key (\<lambda>x. - sort_key_py L x) (map snd all_items)"

record snapshot =
  generated_at :: string
  days_back :: int
  total_items :: nat
  items :: "news_item list"

definition out_data :: "pylib \<Rightarrow> int \<Rightarrow> items_dict \<Rightarrow> snapshot" where
  "out_data L now all_items =
     \<lparr>generated_at = isoformat L \<lparr>wall = now, tzinfo = Some 0\<rparr>,
      days_back = DAYS_BACK,
      total_items = length (sorted_items L all_items),
      items = sorted_items L all_items\<rparr>"

text \<open>
  \<^verbatim>\<open>main\<close>: \<open>opml\<close> is the parsed subscription file, \<open>None\<close> when the file does not exist;
  \<open>now\<close> and \<open>now'\<close> are the two readings of the clock.
\<close>

definition main ::
  "pylib \<Rightarrow> int \<Rightarrow> int \<Rightarrow> element option \<Rightarrow> (string \<Rightarrow> raw_entry list) \<Rightarrow> py_error + snapshot" where
  "main L now now' opml fetch =
     (case opml of
        None \<Rightarrow> Inl SystemExit
      | Some tree_root \<Rightarrow>
          (case aggregate L now (parse_opml L tree_root) fetch of
             Inl err \<Rightarrow> Inl err
           | Inr all_items \<Rightarrow> Inr (out_data L now' all_items)))"

subsection \<open>The link key as the specification words it\<close>

text \<open>
  Follows the specification's words, not the source: "trim exactly one trailing path
  separator (\<^verbatim>\<open>/\<close>) if present". It is compared with \<^const>\<open>rstrip_slash\<close> below.
\<close>

definition trim_one_slash :: "string \<Rightarrow> string" where
  "trim_one_slash s = (if s \<noteq> [] \<and> last s = CHR ''/'' then butlast s else s)"

subsection \<open>Deduplication as the specification words it\<close>


subsection \<open>Properties of the library and of the state that the theorems refer to\<close>

text \<open>
  A timestamp written by \<^verbatim>\<open>isoformat\<close> from an aware value carries its UTC offset, so
  \<^verbatim>\<open>fromisoformat\<close> never reads it back as a naive value.
\<close>

definition iso_keeps_tz :: "pylib \<Rightarrow> bool" where
  "iso_keeps_tz L =
     (\<forall>d d'. tzinfo d \<noteq> None \<and> fromisoformat L (isoformat L d) = Some d' \<longrightarrow> tzinfo d' \<noteq> None)"

text \<open>The stored timestamp of an item, when it can be read, is an aware value.\<close>

definition aware_item :: "pylib \<Rightarrow> news_item \<Rightarrow> bool" where
  "aware_item L x = (case existing_dt_of L x of None \<Rightarrow> True | Some d \<Rightarrow> tzinfo d \<noteq> None)"

text \<open>The entries of all feeds in the order in which the two loops visit them.\<close>

definition visited :: "(string \<Rightarrow> raw_entry list) \<Rightarrow> feed list \<Rightarrow> (string \<times> string \<times> raw_entry) list" where
  "visited fetch feeds =
     concat (map (\<lambda>(feed_title, xml_url, cat). map (\<lambda>e. (feed_title, cat, e)) (fetch xml_url)) feeds)"

subsection \<open>The two loops as one loop over the accepted items\<close>

text \<open>
  The items that \<^const>\<open>parse_entry\<close> returns for the visited entries, in order, and the
  loop body \<^const>\<open>merge_item\<close> run over a list of such items. The nested loops of
  \<^verbatim>\<open>main\<close> are shown below to be this single loop.
\<close>

definition accepted :: "pylib \<Rightarrow> (string \<Rightarrow> raw_entry list) \<Rightarrow> feed list \<Rightarrow> news_item list" where
  "accepted L fetch feeds =
     List.map_filter (\<lambda>(feed_title, cat, e). parse_entry L e feed_title cat) (visited fetch feeds)"

fun merge_items :: "pylib \<Rightarrow> datetime \<Rightarrow> news_item list \<Rightarrow> items_dict \<Rightarrow> py_error + items_dict" where
  "merge_items L cutoff [] all_items = Inr all_items"
| "merge_items L cutoff (x # xs) all_items =
     (case merge_item L cutoff x all_items of
        Inl err \<Rightarrow> Inl err
      | Inr all_items' \<Rightarrow> merge_items L cutoff xs all_items')"





subsection \<open>A small instance of the library, for evaluating examples\<close>

text \<open>
  The instance agrees with CPython (on a machine whose local zone is UTC) on the values
  listed in its tables: \<^verbatim>\<open>lower\<close> on ASCII text, three ISO timestamps and two
  \<^verbatim>\<open>struct_time\<close> values. Outside the tables \<open>ex_fromisoformat\<close> raises, and
  \<open>ex_isoformat\<close> and \<open>ex_mktime\<close> return a fixed value. It serves only to run the
  functions above on concrete inputs.
\<close>

definition ex_lower :: "string \<Rightarrow> string" where
  "ex_lower s =
     map (\<lambda>c. case map_of (zip ''ABCDEFGHIJKLMNOPQRSTUVWXYZ'' ''abcdefghijklmnopqrstuvwxyz'') c of
                 None \<Rightarrow> c | Some l \<Rightarrow> l) s"

definition ex_iso_table :: "(string \<times> datetime) list" where
  "ex_iso_table =
     [(''2024-01-01T00:00:00+00:00'', \<lparr>wall = 1704067200000000, tzinfo = Some 0\<rparr>),
      (''2024-02-01T00:00:00+00:00'', \<lparr>wall = 1706745600000000, tzinfo = Some 0\<rparr>),
      (''2024-02-01T00:00:00'', \<lparr>wall = 1706745600000000, tzinfo = None\<rparr>)]"

definition ex_fromisoformat :: "string \<Rightarrow> datetime option" where
  "ex_fromisoformat s = map_of ex_iso_table s"

definition ex_isoformat :: "datetime \<Rightarrow> string" where
  "ex_isoformat d =
     (case List.find (\<lambda>p. snd p = d) ex_iso_table of None \<Rightarrow> ''unlisted'' | Some p \<Rightarrow> fst p)"

definition ex_mktime :: "struct_time \<Rightarrow> int" where
  "ex_mktime st =
     (if st = StructTime 2024 1 1 0 0 0 0 1 0 then 1704067200
      else if st = StructTime 2024 2 1 0 0 0 3 32 0 then 1706745600
      else 0)"

definition ex_timestamp :: "datetime \<Rightarrow> real option" where
  "ex_timestamp d = Some (real_of_int (utc_instant d) / 1000000)"

definition ex_lib :: pylib where
  "ex_lib = \<lparr>str_lower = ex_lower, fromisoformat = ex_fromisoformat,
             isoformat = ex_isoformat, mktime = ex_mktime, timestamp = ex_timestamp\<rparr>"

text \<open>An entry with no field at all, to build examples from.\<close>

definition empty_entry :: raw_entry where
  "empty_entry =
     \<lparr>attr_title = None, get_title = None, attr_link = None, get_link = None,
      attr_summary = None, get_summary = None, get_description = None,
      published_parsed = None, updated_parsed = None,
      get_published = None, get_updated = None\<rparr>"

section \<open>Properties\<close>

subsection \<open>Substring search and the category scan\<close>

lemma starts_with_iff: "starts_with k t \<longleftrightarrow> (\<exists>post. t = k @ post)"
  by (induction k t rule: starts_with.induct) auto

lemma str_in_iff: "str_in k t \<longleftrightarrow> (\<exists>pre post. t = pre @ k @ post)"
proof (induction t)
  case Nil
  show ?case by auto
next
  case (Cons c cs)
  show ?case
  proof
    assume "str_in k (c # cs)"
    then consider "starts_with k (c # cs)" | "str_in k cs" by auto
    then show "\<exists>pre post. c # cs = pre @ k @ post"
    proof cases
      case 1
      then obtain post where "c # cs = k @ post" using starts_with_iff by blast
      then have "c # cs = [] @ k @ post" by simp
      then show ?thesis by blast
    next
      case 2
      then obtain pre post where "cs = pre @ k @ post" using Cons.IH by blast
      then have "c # cs = (c # pre) @ k @ post" by simp
      then show ?thesis by blast
    qed
  next
    assume "\<exists>pre post. c # cs = pre @ k @ post"
    then obtain pre post where eq: "c # cs = pre @ k @ post" by blast
    show "str_in k (c # cs)"
    proof (cases pre)
      case Nil
      then have "starts_with k (c # cs)" using eq starts_with_iff by auto
      then show ?thesis by simp
    next
      case (Cons p ps)
      then have "cs = ps @ k @ post" using eq by simp
      then have "str_in k cs" using Cons.IH by blast
      then show ?thesis by simp
    qed
  qed
qed

lemma list_ex_str_in: "list_ex (\<lambda>k. str_in k t) kws \<longleftrightarrow> (\<exists>k\<in>set kws. \<exists>pre post. t = pre @ k @ post)"
  by (simp add: list_ex_iff str_in_iff)

lemma scan_first:
  "tbl = before @ (cat, kws) # rest \<Longrightarrow> list_ex (\<lambda>k. str_in k t) kws \<Longrightarrow>
   \<forall>p\<in>set before. \<not> list_ex (\<lambda>k. str_in k t) (snd p) \<Longrightarrow> scan_categories t tbl = cat"
  by (induction before arbitrary: tbl) auto

lemma scan_none:
  "\<forall>p\<in>set tbl. \<not> list_ex (\<lambda>k. str_in k t) (snd p) \<Longrightarrow> scan_categories t tbl = ''general''"
  by (induction tbl) auto

lemma scan_range: "scan_categories t tbl = ''general'' \<or> scan_categories t tbl \<in> fst ` set tbl"
proof (induction tbl)
  case Nil
  show ?case by simp
next
  case (Cons p tbl)
  obtain cat kws where p: "p = (cat, kws)" by (cases p)
  show ?case
  proof (cases "list_ex (\<lambda>k. str_in k t) kws")
    case True
    then show ?thesis by (simp add: p)
  next
    case False
    then show ?thesis using Cons.IH by (auto simp: p)
  qed
qed

text \<open>
  Claim C5. \<^const>\<open>guess_category_from_title\<close> is a function of the title alone. It scans
  the table over the lower-cased title in the order of declaration: when a category has a
  keyword that occurs in the lower-cased title and no category declared before it has
  one, that category is returned, whatever the later categories match; when no keyword of
  the table occurs, the result is \<^verbatim>\<open>general\<close>; and the result is always a category of the
  table.
\<close>

theorem guess_category_first_match:
  "(\<forall>before cat kws rest.
      CATEGORY_KEYWORDS = before @ (cat, kws) # rest \<and>
      (\<exists>k\<in>set kws. \<exists>pre post. str_lower L ttl = pre @ k @ post) \<and>
      (\<forall>p\<in>set before. \<forall>k\<in>set (snd p). \<not> (\<exists>pre post. str_lower L ttl = pre @ k @ post))
      \<longrightarrow> guess_category_from_title L ttl = cat)
   \<and> ((\<forall>p\<in>set CATEGORY_KEYWORDS. \<forall>k\<in>set (snd p). \<not> (\<exists>pre post. str_lower L ttl = pre @ k @ post))
      \<longrightarrow> guess_category_from_title L ttl = ''general'')
   \<and> guess_category_from_title L ttl \<in> fst ` set CATEGORY_KEYWORDS"
proof (intro conjI allI impI)
  fix before cat kws rest
  assume h: "CATEGORY_KEYWORDS = before @ (cat, kws) # rest \<and>
      (\<exists>k\<in>set kws. \<exists>pre post. str_lower L ttl = pre @ k @ post) \<and>
      (\<forall>p\<in>set before. \<forall>k\<in>set (snd p). \<not> (\<exists>pre post. str_lower L ttl = pre @ k @ post))"
  then have "list_ex (\<lambda>k. str_in k (str_lower L ttl)) kws"
    and "\<forall>p\<in>set before. \<not> list_ex (\<lambda>k. str_in k (str_lower L ttl)) (snd p)"
    by (simp_all add: list_ex_str_in)
  with h show "guess_category_from_title L ttl = cat"
    unfolding guess_category_from_title_def Let_def using scan_first by blast
next
  assume "\<forall>p\<in>set CATEGORY_KEYWORDS. \<forall>k\<in>set (snd p). \<not> (\<exists>pre post. str_lower L ttl = pre @ k @ post)"
  then have "\<forall>p\<in>set CATEGORY_KEYWORDS. \<not> list_ex (\<lambda>k. str_in k (str_lower L ttl)) (snd p)"
    by (simp add: list_ex_str_in)
  then show "guess_category_from_title L ttl = ''general''"
    unfolding guess_category_from_title_def Let_def by (rule scan_none)
next
  have "''general'' \<in> fst ` set CATEGORY_KEYWORDS"
    by (simp add: CATEGORY_KEYWORDS_def)
  then show "guess_category_from_title L ttl \<in> fst ` set CATEGORY_KEYWORDS"
    unfolding guess_category_from_title_def Let_def
    using scan_range [of "str_lower L ttl" CATEGORY_KEYWORDS] by metis
qed

text \<open>
  The title \<^verbatim>\<open>Malware Analysis Blog\<close> contains keywords of the categories \<^verbatim>\<open>malware\<close> and
  \<^verbatim>\<open>malware_analysis\<close>; the first is declared earlier and wins.
\<close>

theorem guess_category_first_match_witness:
  "guess_category_from_title ex_lib ''Malware Analysis Blog'' = ''malware''
   \<and> str_lower ex_lib ''Malware Analysis Blog'' = [] @ ''malware'' @ '' analysis blog''
   \<and> str_lower ex_lib ''Malware Analysis Blog'' = [] @ ''malware analysis'' @ '' blog''
   \<and> guess_category_from_title ex_lib ''Weekly Digest'' = ''general''"
proof -
  let ?t = "''Malware Analysis Blog''"
  have low: "str_lower ex_lib ?t = ''malware analysis blog''"
    by (simp add: ex_lib_def ex_lower_def)
  have tbl: "CATEGORY_KEYWORDS = take 6 CATEGORY_KEYWORDS @ (''malware'', [''malware'', ''ransomware'']) # drop 7 CATEGORY_KEYWORDS"
    by (simp add: CATEGORY_KEYWORDS_def)
  have hit: "\<exists>k\<in>set [''malware'', ''ransomware'']. \<exists>pre post. str_lower ex_lib ?t = pre @ k @ post"
    unfolding str_in_iff [symmetric] low by simp
  have miss: "\<forall>p\<in>set (take 6 CATEGORY_KEYWORDS). \<forall>k\<in>set (snd p). \<not> (\<exists>pre post. str_lower ex_lib ?t = pre @ k @ post)"
    unfolding str_in_iff [symmetric] low by (simp add: CATEGORY_KEYWORDS_def)
  have a: "guess_category_from_title ex_lib ?t = ''malware''"
    using guess_category_first_match [of ex_lib ?t] tbl hit miss by blast
  have low2: "str_lower ex_lib ''Weekly Digest'' = ''weekly digest''"
    by (simp add: ex_lib_def ex_lower_def)
  have none: "\<forall>p\<in>set CATEGORY_KEYWORDS. \<forall>k\<in>set (snd p). \<not> (\<exists>pre post. str_lower ex_lib ''Weekly Digest'' = pre @ k @ post)"
    unfolding str_in_iff [symmetric] low2 by (simp add: CATEGORY_KEYWORDS_def)
  have b: "guess_category_from_title ex_lib ''Weekly Digest'' = ''general''"
    using guess_category_first_match [of ex_lib "''Weekly Digest''"] none by blast
  show ?thesis using a b low by simp
qed

subsection \<open>The link key\<close>

lemma rstrip_slash_decomp:
  "\<exists>n. s = rstrip_slash s @ replicate n CHR ''/''"
proof -
  let ?P = "\<lambda>c. c = CHR ''/''"
  have "rev s = takeWhile ?P (rev s) @ dropWhile ?P (rev s)" by simp
  then have "s = rev (dropWhile ?P (rev s)) @ rev (takeWhile ?P (rev s))"
    by (metis rev_append rev_rev_ident)
  moreover have "\<forall>c\<in>set (rev (takeWhile ?P (rev s))). c = CHR ''/''"
    by (auto dest: set_takeWhileD)
  then have "replicate (length (rev (takeWhile ?P (rev s)))) CHR ''/'' = rev (takeWhile ?P (rev s))"
    by (rule replicate_length_same)
  ultimately show ?thesis unfolding rstrip_slash_def by metis
qed

lemma rstrip_slash_last:
  "rstrip_slash s = [] \<or> last (rstrip_slash s) \<noteq> CHR ''/''"
proof (cases "dropWhile (\<lambda>c. c = CHR ''/'') (rev s)")
  case Nil
  then show ?thesis by (simp add: rstrip_slash_def)
next
  case (Cons y ys)
  then have "y \<noteq> CHR ''/''"
    using hd_dropWhile [of "\<lambda>c. c = CHR ''/''" "rev s"] by auto
  then show ?thesis by (simp add: rstrip_slash_def Cons)
qed

lemma rstrip_slash_id:
  "s = [] \<or> last s \<noteq> CHR ''/'' \<Longrightarrow> rstrip_slash s = s"
  by (cases s rule: rev_cases) (auto simp: rstrip_slash_def)

lemma dropWhile_replicate_same:
  "dropWhile (\<lambda>c. c = x) (replicate n x @ xs) = dropWhile (\<lambda>c. c = x) xs"
  by (induction n) simp_all

lemma rstrip_slash_append:
  "rstrip_slash (s @ replicate n CHR ''/'') = rstrip_slash s"
  by (simp add: rstrip_slash_def dropWhile_replicate_same)

lemma merge_item_cases:
  "merge_item L cutoff item all_items = Inr d \<Longrightarrow>
   d = all_items \<or> d = AList.update (rstrip_slash (link item)) item all_items"
  by (auto simp: merge_item_def Let_def split: option.splits sum.splits bool.splits if_splits)

text \<open>
  Claim C2, as amended. The key under which the merge stores an item is the link without
  all of its trailing \<^verbatim>\<open>/\<close>: the link is the key followed by some number of \<^verbatim>\<open>/\<close>, the key
  does not end in \<^verbatim>\<open>/\<close>, a link that does not end in \<^verbatim>\<open>/\<close> is its own key, a link with
  any number of trailing \<^verbatim>\<open>/\<close> after a text that does not end in \<^verbatim>\<open>/\<close> has that text as its
  key, and nothing else of the link is changed. Whenever the merge changes the dictionary,
  it stores the item under this key.
\<close>

theorem canonical_key_strips_all_slashes:
  "(\<exists>n. lnk = rstrip_slash lnk @ replicate n CHR ''/'')
   \<and> (rstrip_slash lnk = [] \<or> last (rstrip_slash lnk) \<noteq> CHR ''/'')
   \<and> ((lnk = [] \<or> last lnk \<noteq> CHR ''/'') \<longrightarrow> rstrip_slash lnk = lnk)
   \<and> (\<forall>s n. lnk = s @ replicate n CHR ''/'' \<and> (s = [] \<or> last s \<noteq> CHR ''/'') \<longrightarrow> rstrip_slash lnk = s)
   \<and> (\<forall>L cutoff item all_items d.
         link item = lnk \<and> merge_item L cutoff item all_items = Inr d \<and> d \<noteq> all_items
         \<longrightarrow> d = AList.update (rstrip_slash lnk) item all_items)"
proof (intro conjI allI impI)
  show "\<exists>n. lnk = rstrip_slash lnk @ replicate n CHR ''/''" by (rule rstrip_slash_decomp)
  show "rstrip_slash lnk = [] \<or> last (rstrip_slash lnk) \<noteq> CHR ''/''" by (rule rstrip_slash_last)
next
  assume "lnk = [] \<or> last lnk \<noteq> CHR ''/''"
  then show "rstrip_slash lnk = lnk" by (rule rstrip_slash_id)
next
  fix s n
  assume "lnk = s @ replicate n CHR ''/'' \<and> (s = [] \<or> last s \<noteq> CHR ''/'')"
  then show "rstrip_slash lnk = s"
    by (simp add: rstrip_slash_append rstrip_slash_id)
next
  fix L cutoff item all_items d
  assume "link item = lnk \<and> merge_item L cutoff item all_items = Inr d \<and> d \<noteq> all_items"
  then show "d = AList.update (rstrip_slash lnk) item all_items"
    using merge_item_cases by blast
qed

theorem canonical_key_strips_all_slashes_witness:
  "rstrip_slash ''http://e.com/p//'' = ''http://e.com/p''
   \<and> rstrip_slash ''http://e.com/p'' = ''http://e.com/p''
   \<and> merge_item ex_lib (cutoff_of 0)
        \<lparr>title = ''T'', link = ''http://e.com/p/'', summary = [], source = ''F'',
         category = ''general'', published = None\<rparr> []
      = Inr [(''http://e.com/p'',
              \<lparr>title = ''T'', link = ''http://e.com/p/'', summary = [], source = ''F'',
               category = ''general'', published = None\<rparr>)]"
proof -
  let ?item = "\<lparr>title = ''T'', link = ''http://e.com/p/'', summary = [], source = ''F'',
         category = ''general'', published = None\<rparr>"
  have "''http://e.com/p//'' = ''http://e.com/p'' @ replicate (Suc (Suc 0)) CHR ''/'' \<and>
          (''http://e.com/p'' = [] \<or> last ''http://e.com/p'' \<noteq> CHR ''/'')
        \<longrightarrow> rstrip_slash ''http://e.com/p//'' = ''http://e.com/p''"
    using canonical_key_strips_all_slashes [of "''http://e.com/p//''"] by blast
  then have a: "rstrip_slash ''http://e.com/p//'' = ''http://e.com/p''"
    by simp
  have "''http://e.com/p'' = [] \<or> last ''http://e.com/p'' \<noteq> CHR ''/''
        \<longrightarrow> rstrip_slash ''http://e.com/p'' = ''http://e.com/p''"
    using canonical_key_strips_all_slashes [of "''http://e.com/p''"] by blast
  then have b: "rstrip_slash ''http://e.com/p'' = ''http://e.com/p''"
    by simp
  obtain d where d: "merge_item ex_lib (cutoff_of 0) ?item [] = Inr d" "d \<noteq> []"
    by (simp add: merge_item_def pub_dt_of_def)
  have "link ?item = ''http://e.com/p/'' \<and> merge_item ex_lib (cutoff_of 0) ?item [] = Inr d \<and> d \<noteq> []
        \<longrightarrow> d = AList.update (rstrip_slash ''http://e.com/p/'') ?item []"
    using canonical_key_strips_all_slashes [of "''http://e.com/p/''"] by blast
  then have "d = AList.update (rstrip_slash ''http://e.com/p/'') ?item []"
    using d by simp
  moreover have "''http://e.com/p/'' = ''http://e.com/p'' @ replicate (Suc 0) CHR ''/'' \<and>
          (''http://e.com/p'' = [] \<or> last ''http://e.com/p'' \<noteq> CHR ''/'')
        \<longrightarrow> rstrip_slash ''http://e.com/p/'' = ''http://e.com/p''"
    using canonical_key_strips_all_slashes [of "''http://e.com/p/''"] by blast
  then have "rstrip_slash ''http://e.com/p/'' = ''http://e.com/p''"
    by simp
  ultimately have m: "merge_item ex_lib (cutoff_of 0) ?item [] = Inr [(''http://e.com/p'', ?item)]"
    using d by simp
  show ?thesis using a b m by simp
qed

text \<open>
  The claim as the specification words it fails on a link with two trailing \<^verbatim>\<open>/\<close>: the
  merge stores the item under the link without both of them, while trimming exactly one
  leaves one.
\<close>

theorem trim_one_slash_counterexample:
  "merge_item ex_lib (cutoff_of 0)
        \<lparr>title = ''T'', link = ''http://e.com/p//'', summary = [], source = ''F'',
         category = ''general'', published = None\<rparr> []
      = Inr [(''http://e.com/p'',
              \<lparr>title = ''T'', link = ''http://e.com/p//'', summary = [], source = ''F'',
               category = ''general'', published = None\<rparr>)]
   \<and> trim_one_slash ''http://e.com/p//'' = ''http://e.com/p/''
   \<and> rstrip_slash ''http://e.com/p//'' \<noteq> trim_one_slash ''http://e.com/p//''"
  by (simp add: merge_item_def pub_dt_of_def rstrip_slash_def trim_one_slash_def)

subsection \<open>Normalising an entry\<close>

lemma py_or_truthy: "truthy (py_or a b) \<longleftrightarrow> truthy a \<or> truthy b"
  by (simp add: py_or_def)

lemma truthy_Some: "truthy v \<longleftrightarrow> (\<exists>s. v = Some s \<and> s \<noteq> [])"
  by (cases v) (simp_all add: truthy_def)


lemma parse_entry_None_iff:
  "parse_entry L e src cat = None \<longleftrightarrow>
   \<not> truthy (py_or (attr_title e) (get_title e)) \<or> \<not> truthy (py_or (attr_link e) (get_link e))"
  by (auto simp: parse_entry_def truthy_def split: option.splits)

lemma parse_entry_Some:
  "parse_entry L e src cat = Some item \<Longrightarrow>
   py_or (attr_title e) (get_title e) = Some (title item) \<and> title item \<noteq> [] \<and>
   py_or (attr_link e) (get_link e) = Some (link item) \<and> link item \<noteq> [] \<and>
   summary item = or_str (attr_summary e) (or_str (get_summary e) (or_str (get_description e) [])) \<and>
   source item = src \<and> category item = cat \<and>
   published item = map_option (isoformat L) (entry_published L e)"
  by (auto simp: parse_entry_def split: option.splits if_splits)



text \<open>
  Claim C6. The timestamp of a normalised item is resolved in this order. A structured
  \<^verbatim>\<open>published_parsed\<close> time, when present, is used. Otherwise a structured
  \<^verbatim>\<open>updated_parsed\<close> time, when present, is used. Otherwise the raw string (the published
  string, or the updated string when the published one is absent or empty) is parsed with
  \<^verbatim>\<open>fromisoformat\<close>, and a value without zone gets the zone UTC, its fields unchanged.
  When the parse raises, or no raw string is present, the item is still returned and its
  \<open>published\<close> is \<open>None\<close>.
\<close>

theorem published_resolution_order:
  assumes "parse_entry L e src cat = Some item"
  shows
  "(\<forall>st. published_parsed e = Some st \<longrightarrow>
       published item = Some (isoformat L (fromtimestamp_utc (mktime L st))))
   \<and> (\<forall>st. published_parsed e = None \<and> updated_parsed e = Some st \<longrightarrow>
       published item = Some (isoformat L (fromtimestamp_utc (mktime L st))))
   \<and> (\<forall>raw d. published_parsed e = None \<and> updated_parsed e = None \<and>
         (if truthy (get_published e) then get_published e else get_updated e) = Some raw \<and>
         raw \<noteq> [] \<and> fromisoformat L raw = Some d \<longrightarrow>
       published item = Some (isoformat L (if tzinfo d = None then d\<lparr>tzinfo := Some 0\<rparr> else d)))
   \<and> (\<forall>raw. published_parsed e = None \<and> updated_parsed e = None \<and>
         (if truthy (get_published e) then get_published e else get_updated e) = Some raw \<and>
         fromisoformat L raw = None \<longrightarrow>
       published item = None)
   \<and> (published_parsed e = None \<and> updated_parsed e = None \<and>
        \<not> truthy (get_published e) \<and> \<not> truthy (get_updated e) \<longrightarrow>
       published item = None)"
proof -
  have p: "published item = map_option (isoformat L) (entry_published L e)"
    using parse_entry_Some [OF assms] by simp
  show ?thesis
    unfolding p
    by (auto simp: entry_published_def py_or_def replace_tzinfo_utc_def truthy_def
        split: option.splits if_splits)
qed

theorem published_resolution_order_witness:
  "parse_entry ex_lib
      (empty_entry\<lparr>attr_title := Some ''T'', attr_link := Some ''http://e.com/p'',
         published_parsed := Some (StructTime 2024 1 1 0 0 0 0 1 0),
         updated_parsed := Some (StructTime 2024 2 1 0 0 0 3 32 0),
         get_published := Some ''2024-02-01T00:00:00''\<rparr>) ''F'' ''dfir''
    = Some \<lparr>title = ''T'', link = ''http://e.com/p'', summary = [], source = ''F'',
            category = ''dfir'', published = Some ''2024-01-01T00:00:00+00:00''\<rparr>
   \<and> parse_entry ex_lib
      (empty_entry\<lparr>attr_title := Some ''T'', attr_link := Some ''http://e.com/p'',
         get_published := Some ''2024-02-01T00:00:00''\<rparr>) ''F'' ''dfir''
    = Some \<lparr>title = ''T'', link = ''http://e.com/p'', summary = [], source = ''F'',
            category = ''dfir'', published = Some ''2024-02-01T00:00:00+00:00''\<rparr>
   \<and> parse_entry ex_lib
      (empty_entry\<lparr>attr_title := Some ''T'', attr_link := Some ''http://e.com/p'',
         get_published := Some ''Thu, 01 Feb 2024 00:00:00 GMT''\<rparr>) ''F'' ''dfir''
    = Some \<lparr>title = ''T'', link = ''http://e.com/p'', summary = [], source = ''F'',
            category = ''dfir'', published = None\<rparr>
   \<and> parse_entry ex_lib
      (empty_entry\<lparr>attr_title := Some ''T'', attr_link := Some ''http://e.com/p'',
         updated_parsed := Some (StructTime 2024 2 1 0 0 0 3 32 0),
         get_published := Some ''2024-01-01T00:00:00+00:00''\<rparr>) ''F'' ''dfir''
    = Some \<lparr>title = ''T'', link = ''http://e.com/p'', summary = [], source = ''F'',
            category = ''dfir'', published = Some ''2024-02-01T00:00:00+00:00''\<rparr>
   \<and> parse_entry ex_lib
      (empty_entry\<lparr>attr_title := Some ''T'', attr_link := Some ''http://e.com/p''\<rparr>) ''F'' ''dfir''
    = Some \<lparr>title = ''T'', link = ''http://e.com/p'', summary = [], source = ''F'',
            category = ''dfir'', published = None\<rparr>"
proof -
  let ?e4 = "empty_entry\<lparr>attr_title := Some ''T'', attr_link := Some ''http://e.com/p'',
         updated_parsed := Some (StructTime 2024 2 1 0 0 0 3 32 0),
         get_published := Some ''2024-01-01T00:00:00+00:00''\<rparr>"
  let ?e5 = "empty_entry\<lparr>attr_title := Some ''T'', attr_link := Some ''http://e.com/p''\<rparr>"
  let ?e1 = "empty_entry\<lparr>attr_title := Some ''T'', attr_link := Some ''http://e.com/p'',
         published_parsed := Some (StructTime 2024 1 1 0 0 0 0 1 0),
         updated_parsed := Some (StructTime 2024 2 1 0 0 0 3 32 0),
         get_published := Some ''2024-02-01T00:00:00''\<rparr>"
  let ?e2 = "empty_entry\<lparr>attr_title := Some ''T'', attr_link := Some ''http://e.com/p'',
         get_published := Some ''2024-02-01T00:00:00''\<rparr>"
  let ?e3 = "empty_entry\<lparr>attr_title := Some ''T'', attr_link := Some ''http://e.com/p'',
         get_published := Some ''Thu, 01 Feb 2024 00:00:00 GMT''\<rparr>"
  have ex: "\<And>e. truthy (attr_title e) \<Longrightarrow> truthy (attr_link e) \<Longrightarrow>
              \<exists>item. parse_entry ex_lib e ''F'' ''dfir'' = Some item"
    using parse_entry_None_iff [of ex_lib _ "''F''" "''dfir''"] by (auto simp: py_or_truthy)
  have flds: "\<And>e item. parse_entry ex_lib e ''F'' ''dfir'' = Some item \<Longrightarrow>
      attr_title e = Some ''T'' \<Longrightarrow> attr_link e = Some ''http://e.com/p'' \<Longrightarrow>
      attr_summary e = None \<Longrightarrow> get_summary e = None \<Longrightarrow> get_description e = None \<Longrightarrow>
      item = \<lparr>title = ''T'', link = ''http://e.com/p'', summary = [], source = ''F'',
              category = ''dfir'', published = published item\<rparr>"
  proof -
    fix e item
    assume a: "parse_entry ex_lib e ''F'' ''dfir'' = Some item"
      "attr_title e = Some ''T''" "attr_link e = Some ''http://e.com/p''"
      "attr_summary e = None" "get_summary e = None" "get_description e = None"
    from parse_entry_Some [OF a(1)] a(2-6)
    show "item = \<lparr>title = ''T'', link = ''http://e.com/p'', summary = [], source = ''F'',
              category = ''dfir'', published = published item\<rparr>"
      by (cases item) (simp add: py_or_def truthy_def or_str_def)
  qed
  obtain i1 where i1: "parse_entry ex_lib ?e1 ''F'' ''dfir'' = Some i1"
    using ex [of ?e1] by (auto simp: truthy_def empty_entry_def)
  have p1: "published i1 = Some ''2024-01-01T00:00:00+00:00''"
    using published_resolution_order [OF i1]
    by (simp add: empty_entry_def ex_lib_def ex_mktime_def fromtimestamp_utc_def
        ex_isoformat_def ex_iso_table_def)
  obtain i2 where i2: "parse_entry ex_lib ?e2 ''F'' ''dfir'' = Some i2"
    using ex [of ?e2] by (auto simp: truthy_def empty_entry_def)
  have p2: "published i2 = Some ''2024-02-01T00:00:00+00:00''"
    using published_resolution_order [OF i2]
    by (simp add: empty_entry_def ex_lib_def truthy_def ex_fromisoformat_def
        ex_isoformat_def ex_iso_table_def)
  obtain i3 where i3: "parse_entry ex_lib ?e3 ''F'' ''dfir'' = Some i3"
    using ex [of ?e3] by (auto simp: truthy_def empty_entry_def)
  have p3: "published i3 = None"
    using published_resolution_order [OF i3]
    by (simp add: empty_entry_def ex_lib_def truthy_def ex_fromisoformat_def ex_iso_table_def)
  obtain i4 where i4: "parse_entry ex_lib ?e4 ''F'' ''dfir'' = Some i4"
    using ex [of ?e4] by (auto simp: truthy_def empty_entry_def)
  have p4: "published i4 = Some ''2024-02-01T00:00:00+00:00''"
    using published_resolution_order [OF i4]
    by (simp add: empty_entry_def ex_lib_def ex_mktime_def fromtimestamp_utc_def
        ex_isoformat_def ex_iso_table_def)
  obtain i5 where i5: "parse_entry ex_lib ?e5 ''F'' ''dfir'' = Some i5"
    using ex [of ?e5] by (auto simp: truthy_def empty_entry_def)
  have p5: "published i5 = None"
    using published_resolution_order [OF i5]
    by (simp add: empty_entry_def truthy_def)
  show ?thesis
    using flds [OF i1] flds [OF i2] flds [OF i3] flds [OF i4] flds [OF i5]
      i1 i2 i3 i4 i5 p1 p2 p3 p4 p5
    by (simp add: empty_entry_def)
qed

subsection \<open>The merge step\<close>

lemma dt_less_aware:
  "tzinfo a \<noteq> None \<Longrightarrow> tzinfo b \<noteq> None \<Longrightarrow> dt_less a b = Inr (utc_instant a < utc_instant b)"
  by (auto simp: dt_less_def utc_instant_def)

lemma dt_le_aware:
  "tzinfo a \<noteq> None \<Longrightarrow> tzinfo b \<noteq> None \<Longrightarrow> dt_le a b = Inr (utc_instant a \<le> utc_instant b)"
  by (auto simp: dt_le_def utc_instant_def)

lemma pub_dt_of_aware: "pub_dt_of L x = Some p \<Longrightarrow> tzinfo p \<noteq> None"
  by (auto simp: pub_dt_of_def replace_tzinfo_utc_def split: option.splits if_splits)

lemma cutoff_of_aware: "tzinfo (cutoff_of now) \<noteq> None"
  by (simp add: cutoff_of_def)

lemma merge_item_filtered:
  assumes "tzinfo cutoff \<noteq> None" "pub_dt_of L item = Some p" "utc_instant p < utc_instant cutoff"
  shows "merge_item L cutoff item all_items = Inr all_items"
  using assms pub_dt_of_aware [OF assms(2)]
  by (simp add: merge_item_def Let_def dt_less_aware)

lemma merge_item_unknown:
  assumes "pub_dt_of L item = None"
  shows "merge_item L cutoff item all_items =
         Inr (AList.update (rstrip_slash (link item)) item all_items)"
  using assms by (simp add: merge_item_def Let_def split: option.splits)


lemma merge_item_existing:
  assumes "tzinfo cutoff \<noteq> None"
      and "\<forall>p. pub_dt_of L item = Some p \<longrightarrow> \<not> utc_instant p < utc_instant cutoff"
      and "map_of all_items (rstrip_slash (link item)) = Some existing"
      and "aware_item L existing"
  shows "merge_item L cutoff item all_items =
         (case (existing_dt_of L existing, pub_dt_of L item) of
            (Some e, Some p) \<Rightarrow>
              if utc_instant p \<le> utc_instant e then Inr all_items
              else Inr (AList.update (rstrip_slash (link item)) item all_items)
          | _ \<Rightarrow> Inr (AList.update (rstrip_slash (link item)) item all_items))"
proof (cases "pub_dt_of L item")
  case None
  then show ?thesis using merge_item_unknown [OF None] by (simp split: option.splits)
next
  case (Some p)
  note p = pub_dt_of_aware [OF Some]
  show ?thesis
  proof (cases "existing_dt_of L existing")
    case None
    then show ?thesis using assms Some p by (simp add: merge_item_def Let_def dt_less_aware)
  next
    case e: (Some e)
    then have "tzinfo e \<noteq> None" using assms(4) by (simp add: aware_item_def)
    then show ?thesis
      using assms Some p e by (simp add: merge_item_def Let_def dt_less_aware dt_le_aware)
  qed
qed

text \<open>
  Claim C1. An item reaches the merge when it passed the recency filter. When its key
  already has an entry whose stored timestamp, if it can be read, carries a UTC offset (as
  every timestamp written by \<^const>\<open>parse_entry\<close> does): if both timestamps can be read and
  the existing one is not earlier than the incoming one, the dictionary is left as it is, so
  the existing item stays, unchanged; in every other case (the existing or the incoming
  timestamp is absent or cannot be read, or the incoming one is strictly later) the
  incoming item is stored under the key in place of the existing one.
\<close>

theorem merge_tie_break:
  assumes "map_of all_items (rstrip_slash (link item)) = Some existing"
      and "\<forall>p. pub_dt_of L item = Some p \<longrightarrow> \<not> utc_instant p < utc_instant (cutoff_of now)"
      and "aware_item L existing"
  shows
  "(\<forall>e p. existing_dt_of L existing = Some e \<and> pub_dt_of L item = Some p \<and>
          utc_instant p \<le> utc_instant e
      \<longrightarrow> merge_item L (cutoff_of now) item all_items = Inr all_items)
   \<and> ((existing_dt_of L existing = None \<or> pub_dt_of L item = None \<or>
        (\<exists>e p. existing_dt_of L existing = Some e \<and> pub_dt_of L item = Some p \<and>
               utc_instant e < utc_instant p))
      \<longrightarrow> merge_item L (cutoff_of now) item all_items =
            Inr (AList.update (rstrip_slash (link item)) item all_items) \<and>
          map_of (AList.update (rstrip_slash (link item)) item all_items)
            (rstrip_slash (link item)) = Some item)"
  using merge_item_existing [OF cutoff_of_aware assms(2) assms(1) assms(3)]
  by (auto simp: update_conv' split: option.splits)

theorem merge_tie_break_witness:
  "merge_item ex_lib (cutoff_of 1705276800000000)
     \<lparr>title = ''Old'', link = ''http://e.com/p/'', summary = [], source = ''G'',
      category = ''dfir'', published = Some ''2024-01-01T00:00:00+00:00''\<rparr>
     [(''http://e.com/p'',
       \<lparr>title = ''New'', link = ''http://e.com/p'', summary = [], source = ''F'',
        category = ''dfir'', published = Some ''2024-02-01T00:00:00+00:00''\<rparr>)]
   = Inr [(''http://e.com/p'',
       \<lparr>title = ''New'', link = ''http://e.com/p'', summary = [], source = ''F'',
        category = ''dfir'', published = Some ''2024-02-01T00:00:00+00:00''\<rparr>)]
   \<and> merge_item ex_lib (cutoff_of 1705276800000000)
     \<lparr>title = ''Undated'', link = ''http://e.com/p/'', summary = [], source = ''G'',
      category = ''dfir'', published = None\<rparr>
     [(''http://e.com/p'',
       \<lparr>title = ''New'', link = ''http://e.com/p'', summary = [], source = ''F'',
        category = ''dfir'', published = Some ''2024-02-01T00:00:00+00:00''\<rparr>)]
   = Inr [(''http://e.com/p'',
       \<lparr>title = ''Undated'', link = ''http://e.com/p/'', summary = [], source = ''G'',
        category = ''dfir'', published = None\<rparr>)]
   \<and> merge_item ex_lib (cutoff_of 1705276800000000)
     \<lparr>title = ''New'', link = ''http://e.com/p'', summary = [], source = ''F'',
      category = ''dfir'', published = Some ''2024-02-01T00:00:00+00:00''\<rparr>
     [(''http://e.com/p'',
       \<lparr>title = ''Old'', link = ''http://e.com/p/'', summary = [], source = ''G'',
        category = ''dfir'', published = Some ''2024-01-01T00:00:00+00:00''\<rparr>)]
   = Inr [(''http://e.com/p'',
       \<lparr>title = ''New'', link = ''http://e.com/p'', summary = [], source = ''F'',
        category = ''dfir'', published = Some ''2024-02-01T00:00:00+00:00''\<rparr>)]"
proof -
  let ?new = "\<lparr>title = ''New'', link = ''http://e.com/p'', summary = [], source = ''F'',
        category = ''dfir'', published = Some ''2024-02-01T00:00:00+00:00''\<rparr>"
  let ?old = "\<lparr>title = ''Old'', link = ''http://e.com/p/'', summary = [], source = ''G'',
      category = ''dfir'', published = Some ''2024-01-01T00:00:00+00:00''\<rparr>"
  let ?und = "\<lparr>title = ''Undated'', link = ''http://e.com/p/'', summary = [], source = ''G'',
      category = ''dfir'', published = None\<rparr>"
  let ?d = "[(''http://e.com/p'', ?new)]"
  have ex: "existing_dt_of ex_lib ?new = Some \<lparr>wall = 1706745600000000, tzinfo = Some 0\<rparr>"
    by (simp add: existing_dt_of_def ex_lib_def ex_fromisoformat_def ex_iso_table_def)
  have aw: "aware_item ex_lib ?new" by (simp add: aware_item_def ex)
  have po: "pub_dt_of ex_lib ?old = Some \<lparr>wall = 1704067200000000, tzinfo = Some 0\<rparr>"
    by (simp add: pub_dt_of_def ex_lib_def ex_fromisoformat_def ex_iso_table_def)
  have pu: "pub_dt_of ex_lib ?und = None" by (simp add: pub_dt_of_def)
  have k1: "map_of ?d (rstrip_slash (link ?old)) = Some ?new" by (simp add: rstrip_slash_def)
  have k2: "map_of ?d (rstrip_slash (link ?und)) = Some ?new" by (simp add: rstrip_slash_def)
  have r1: "\<forall>p. pub_dt_of ex_lib ?old = Some p \<longrightarrow>
              \<not> utc_instant p < utc_instant (cutoff_of 1705276800000000)"
    by (simp add: po utc_instant_def cutoff_of_def DAYS_BACK_def)
  have r2: "\<forall>p. pub_dt_of ex_lib ?und = Some p \<longrightarrow>
              \<not> utc_instant p < utc_instant (cutoff_of 1705276800000000)"
    by (simp add: pu)
  have a: "merge_item ex_lib (cutoff_of 1705276800000000) ?old ?d = Inr ?d"
    using merge_tie_break [OF k1 r1 aw] ex po by (simp add: utc_instant_def)
  have b: "merge_item ex_lib (cutoff_of 1705276800000000) ?und ?d
           = Inr (AList.update (rstrip_slash (link ?und)) ?und ?d)"
    using merge_tie_break [OF k2 r2 aw] pu by simp
  have ex': "existing_dt_of ex_lib ?old = Some \<lparr>wall = 1704067200000000, tzinfo = Some 0\<rparr>"
    by (simp add: existing_dt_of_def ex_lib_def ex_fromisoformat_def ex_iso_table_def)
  have aw': "aware_item ex_lib ?old" by (simp add: aware_item_def ex')
  have pn: "pub_dt_of ex_lib ?new = Some \<lparr>wall = 1706745600000000, tzinfo = Some 0\<rparr>"
    by (simp add: pub_dt_of_def ex_lib_def ex_fromisoformat_def ex_iso_table_def)
  have k3: "map_of [(''http://e.com/p'', ?old)] (rstrip_slash (link ?new)) = Some ?old"
    by (simp add: rstrip_slash_def)
  have r3: "\<forall>p. pub_dt_of ex_lib ?new = Some p \<longrightarrow>
              \<not> utc_instant p < utc_instant (cutoff_of 1705276800000000)"
    by (simp add: pn utc_instant_def cutoff_of_def DAYS_BACK_def)
  have c: "merge_item ex_lib (cutoff_of 1705276800000000) ?new [(''http://e.com/p'', ?old)]
           = Inr (AList.update (rstrip_slash (link ?new)) ?new [(''http://e.com/p'', ?old)])"
    using merge_tie_break [OF k3 r3 aw'] ex' pn by (simp add: utc_instant_def)
  show ?thesis using a b c by (simp add: rstrip_slash_def)
qed

subsection \<open>The loops\<close>

lemma merge_items_append:
  "merge_items L cutoff (xs @ ys) d =
     (case merge_items L cutoff xs d of Inl err \<Rightarrow> Inl err | Inr d' \<Rightarrow> merge_items L cutoff ys d')"
  by (induction xs arbitrary: d) (auto split: sum.splits)

lemma merge_entries_items:
  "merge_entries L cutoff ft cat es d =
     merge_items L cutoff (List.map_filter (\<lambda>e. parse_entry L e ft cat) es) d"
proof (induction es arbitrary: d)
  case Nil
  show ?case by (simp add: map_filter_simps)
next
  case (Cons e es)
  show ?case
    by (cases "parse_entry L e ft cat")
       (auto simp: map_filter_simps merge_entry_def Cons.IH split: sum.splits)
qed

lemma map_filter_append:
  "List.map_filter f (xs @ ys) = List.map_filter f xs @ List.map_filter f ys"
  by (simp add: List.map_filter_def)

lemma map_filter_map:
  "List.map_filter f (map g xs) = List.map_filter (f \<circ> g) xs"
  by (simp add: List.map_filter_def filter_map comp_def)

lemma accepted_Cons:
  "accepted L fetch ((ft, u, cat) # feeds) =
     List.map_filter (\<lambda>e. parse_entry L e ft cat) (fetch u) @ accepted L fetch feeds"
  by (simp add: accepted_def visited_def map_filter_append map_filter_map comp_def)

lemma merge_feeds_items:
  "merge_feeds L fetch cutoff feeds d = merge_items L cutoff (accepted L fetch feeds) d"
proof (induction feeds arbitrary: d)
  case Nil
  show ?case by (simp add: accepted_def visited_def map_filter_simps)
next
  case (Cons f feeds)
  obtain ft u cat where f: "f = (ft, u, cat)" by (cases f)
  show ?case
    by (simp add: f accepted_Cons merge_items_append merge_entries_items Cons.IH
        split: sum.splits)
qed

lemma in_set_map_filter:
  "y \<in> set (List.map_filter f xs) \<longleftrightarrow> (\<exists>x\<in>set xs. f x = Some y)"
  by (induction xs) (auto simp: map_filter_simps split: option.splits)

lemma accepted_iff:
  "x \<in> set (accepted L fetch feeds) \<longleftrightarrow>
   (\<exists>(ft, cat, e) \<in> set (visited fetch feeds). parse_entry L e ft cat = Some x)"
  unfolding accepted_def in_set_map_filter by (auto split: prod.splits)

lemma set_update_subset: "set (AList.update k v al) \<subseteq> insert (k, v) (set al)"
  by (induction al) auto

lemma merge_item_result:
  assumes "tzinfo cutoff \<noteq> None" "merge_item L cutoff item d = Inr d'"
  shows "d' = d \<or>
         (d' = AList.update (rstrip_slash (link item)) item d \<and>
          (\<forall>p. pub_dt_of L item = Some p \<longrightarrow> \<not> utc_instant p < utc_instant cutoff))"
proof (cases "pub_dt_of L item")
  case None
  then show ?thesis using assms(2) merge_item_unknown [OF None] by simp
next
  case (Some p)
  note aw = pub_dt_of_aware [OF Some]
  show ?thesis
  proof (cases "utc_instant p < utc_instant cutoff")
    case True
    then show ?thesis
      using merge_item_filtered [OF assms(1) Some True] assms(2) by simp
  next
    case False
    then show ?thesis
      using assms(2) merge_item_cases [OF assms(2)] Some by auto
  qed
qed

lemma merge_items_invariant:
  assumes "tzinfo cutoff \<noteq> None"
      and "merge_items L cutoff xs d = Inr d'"
      and "\<forall>(k, v) \<in> set d. P k v"
      and "\<forall>x \<in> set xs. (\<forall>p. pub_dt_of L x = Some p \<longrightarrow> \<not> utc_instant p < utc_instant cutoff)
             \<longrightarrow> P (rstrip_slash (link x)) x"
  shows "\<forall>(k, v) \<in> set d'. P k v"
  using assms(2-4)
proof (induction xs arbitrary: d)
  case Nil
  then show ?case by simp
next
  case (Cons x xs)
  from Cons.prems(1) obtain d1 where s: "merge_item L cutoff x d = Inr d1"
    and r: "merge_items L cutoff xs d1 = Inr d'"
    by (auto split: sum.splits)
  have "\<forall>(k, v) \<in> set d1. P k v"
    using merge_item_result [OF assms(1) s] Cons.prems(2,3) set_update_subset [of "rstrip_slash (link x)" x d]
    by auto
  then show ?case using Cons.IH [OF r] Cons.prems(3) by simp
qed

text \<open>
  Claim C3. The cutoff is computed once, before the loops. An item whose timestamp can be
  read and is strictly earlier than the cutoff leaves the dictionary as it is; an item
  whose timestamp is absent or cannot be read is never dropped by the filter: it is stored
  under its key. The final dictionary therefore holds no item whose timestamp can be read
  and is strictly earlier than the cutoff.
\<close>

theorem recency_filter:
  "(\<forall>item all_items p.
      pub_dt_of L item = Some p \<and> utc_instant p < utc_instant (cutoff_of now)
      \<longrightarrow> merge_item L (cutoff_of now) item all_items = Inr all_items)
   \<and> (\<forall>item all_items.
      pub_dt_of L item = None
      \<longrightarrow> merge_item L (cutoff_of now) item all_items =
            Inr (AList.update (rstrip_slash (link item)) item all_items))
   \<and> (\<forall>d. aggregate L now feeds fetch = Inr d
      \<longrightarrow> (\<forall>(k, v) \<in> set d. \<forall>p. pub_dt_of L v = Some p \<longrightarrow>
             \<not> utc_instant p < utc_instant (cutoff_of now)))"
proof (intro conjI allI impI)
  fix item all_items p
  assume "pub_dt_of L item = Some p \<and> utc_instant p < utc_instant (cutoff_of now)"
  then show "merge_item L (cutoff_of now) item all_items = Inr all_items"
    using merge_item_filtered [OF cutoff_of_aware] by blast
next
  fix item all_items
  assume "pub_dt_of L item = None"
  then show "merge_item L (cutoff_of now) item all_items =
            Inr (AList.update (rstrip_slash (link item)) item all_items)"
    by (rule merge_item_unknown)
next
  fix d
  assume "aggregate L now feeds fetch = Inr d"
  then have m: "merge_items L (cutoff_of now) (accepted L fetch feeds) [] = Inr d"
    by (simp add: aggregate_def merge_feeds_items)
  show "\<forall>(k, v) \<in> set d. \<forall>p. pub_dt_of L v = Some p \<longrightarrow>
             \<not> utc_instant p < utc_instant (cutoff_of now)"
    by (rule merge_items_invariant [OF cutoff_of_aware m]) simp_all
qed


lemmas run_defs =
  aggregate_def merge_entry_def merge_item_def parse_entry_def entry_published_def
  pub_dt_of_def existing_dt_of_def py_or_def or_str_def truthy_def rstrip_slash_def
  dt_less_def dt_le_def cutoff_of_def DAYS_BACK_def fromtimestamp_utc_def
  replace_tzinfo_utc_def empty_entry_def Let_def
  ex_lib_def ex_mktime_def ex_isoformat_def ex_fromisoformat_def ex_iso_table_def

theorem recency_filter_witness:
  "merge_item ex_lib (cutoff_of 1707955200000000)
     \<lparr>title = ''Old'', link = ''http://e.com/p/'', summary = [], source = ''F'',
      category = ''dfir'', published = Some ''2024-01-01T00:00:00+00:00''\<rparr> []
   = Inr []
   \<and> merge_item ex_lib (cutoff_of 1707955200000000)
     \<lparr>title = ''Undated'', link = ''http://e.com/q'', summary = [], source = ''F'',
      category = ''dfir'', published = None\<rparr> []
   = Inr [(''http://e.com/q'',
           \<lparr>title = ''Undated'', link = ''http://e.com/q'', summary = [], source = ''F'',
            category = ''dfir'', published = None\<rparr>)]
   \<and> aggregate ex_lib 1707955200000000 [(''F'', ''http://f.example/rss'', ''dfir'')]
       (\<lambda>u. [empty_entry\<lparr>attr_title := Some ''Old'', attr_link := Some ''http://e.com/p/'',
                 published_parsed := Some (StructTime 2024 1 1 0 0 0 0 1 0)\<rparr>,
               empty_entry\<lparr>attr_title := Some ''Undated'', attr_link := Some ''http://e.com/q''\<rparr>,
               empty_entry\<lparr>attr_title := Some ''New'', attr_link := Some ''http://e.com/r'',
                 published_parsed := Some (StructTime 2024 2 1 0 0 0 3 32 0)\<rparr>])
   = Inr [(''http://e.com/q'',
           \<lparr>title = ''Undated'', link = ''http://e.com/q'', summary = [], source = ''F'',
            category = ''dfir'', published = None\<rparr>),
          (''http://e.com/r'',
           \<lparr>title = ''New'', link = ''http://e.com/r'', summary = [], source = ''F'',
            category = ''dfir'', published = Some ''2024-02-01T00:00:00+00:00''\<rparr>)]
   \<and> \<not> utc_instant \<lparr>wall = 1706745600000000, tzinfo = Some 0\<rparr>
        < utc_instant (cutoff_of 1707955200000000)"
proof -
  let ?now = "1707955200000000 :: int"
  let ?old = "\<lparr>title = ''Old'', link = ''http://e.com/p/'', summary = [], source = ''F'',
      category = ''dfir'', published = Some ''2024-01-01T00:00:00+00:00''\<rparr>"
  let ?und = "\<lparr>title = ''Undated'', link = ''http://e.com/q'', summary = [], source = ''F'',
      category = ''dfir'', published = None\<rparr>"
  let ?feeds = "[(''F'', ''http://f.example/rss'', ''dfir'')]"
  let ?fetch = "\<lambda>u::string. [empty_entry\<lparr>attr_title := Some ''Old'', attr_link := Some ''http://e.com/p/'',
                 published_parsed := Some (StructTime 2024 1 1 0 0 0 0 1 0)\<rparr>,
               empty_entry\<lparr>attr_title := Some ''Undated'', attr_link := Some ''http://e.com/q''\<rparr>,
               empty_entry\<lparr>attr_title := Some ''New'', attr_link := Some ''http://e.com/r'',
                 published_parsed := Some (StructTime 2024 2 1 0 0 0 3 32 0)\<rparr>]"
  note rf = recency_filter [of ex_lib ?now ?feeds ?fetch]
  have po: "pub_dt_of ex_lib ?old = Some \<lparr>wall = 1704067200000000, tzinfo = Some 0\<rparr>"
    by (simp add: pub_dt_of_def ex_lib_def ex_fromisoformat_def ex_iso_table_def)
  have lt: "utc_instant \<lparr>wall = 1704067200000000, tzinfo = Some 0\<rparr> < utc_instant (cutoff_of ?now)"
    by (simp add: utc_instant_def cutoff_of_def DAYS_BACK_def)
  have a: "merge_item ex_lib (cutoff_of ?now) ?old [] = Inr []"
    using rf po lt by blast
  have pu: "pub_dt_of ex_lib ?und = None" by (simp add: pub_dt_of_def)
  have b: "merge_item ex_lib (cutoff_of ?now) ?und []
           = Inr (AList.update (rstrip_slash (link ?und)) ?und [])"
    using rf pu by blast
  have c: "aggregate ex_lib ?now ?feeds ?fetch
     = Inr [(''http://e.com/q'', ?und),
          (''http://e.com/r'',
           \<lparr>title = ''New'', link = ''http://e.com/r'', summary = [], source = ''F'',
            category = ''dfir'', published = Some ''2024-02-01T00:00:00+00:00''\<rparr>)]"
    by (simp add: run_defs)
  let ?new = "\<lparr>title = ''New'', link = ''http://e.com/r'', summary = [], source = ''F'',
            category = ''dfir'', published = Some ''2024-02-01T00:00:00+00:00''\<rparr>"
  have pn: "pub_dt_of ex_lib ?new = Some \<lparr>wall = 1706745600000000, tzinfo = Some 0\<rparr>"
    by (simp add: pub_dt_of_def ex_lib_def ex_fromisoformat_def ex_iso_table_def)
  have "\<forall>(k, v) \<in> set [(''http://e.com/q'', ?und), (''http://e.com/r'', ?new)].
          \<forall>p. pub_dt_of ex_lib v = Some p \<longrightarrow> \<not> utc_instant p < utc_instant (cutoff_of ?now)"
    using rf c by blast
  then have d: "\<not> utc_instant \<lparr>wall = 1706745600000000, tzinfo = Some 0\<rparr>
        < utc_instant (cutoff_of ?now)"
    using pn by simp
  show ?thesis using a b c d by (simp add: rstrip_slash_def)
qed

text \<open>
  Claim C10. Every turn of the merge loop keeps this invariant of the dictionary: each key
  is the link of its item without the trailing \<^verbatim>\<open>/\<close>. The item itself is stored as
  \<^const>\<open>parse_entry\<close> returned it, so its \<open>link\<close> field is the link of its entry as it was
  found, which can differ from the key by trailing \<^verbatim>\<open>/\<close>.
\<close>

theorem key_invariant:
  "(\<forall>cutoff ft cat e d d'.
      (\<forall>(k, v) \<in> set d. k = rstrip_slash (link v)) \<and> merge_entry L cutoff ft cat e d = Inr d'
      \<longrightarrow> (\<forall>(k, v) \<in> set d'. k = rstrip_slash (link v)))
   \<and> (\<forall>d. aggregate L now feeds fetch = Inr d
      \<longrightarrow> (\<forall>(k, v) \<in> set d.
             k = rstrip_slash (link v) \<and>
             (\<exists>(ft, cat, e) \<in> set (visited fetch feeds).
                parse_entry L e ft cat = Some v \<and>
                Some (link v) = (if truthy (attr_link e) then attr_link e else get_link e))))"
proof (intro conjI allI impI)
  fix cutoff ft cat e d d'
  assume h: "(\<forall>(k, v) \<in> set d. k = rstrip_slash (link v)) \<and> merge_entry L cutoff ft cat e d = Inr d'"
  show "\<forall>(k, v) \<in> set d'. k = rstrip_slash (link v)"
  proof (cases "parse_entry L e ft cat")
    case None
    then show ?thesis using h by (simp add: merge_entry_def)
  next
    case (Some item)
    then have "merge_item L cutoff item d = Inr d'" using h by (simp add: merge_entry_def)
    from merge_item_cases [OF this] show ?thesis
      using h set_update_subset [of "rstrip_slash (link item)" item d] by auto
  qed
next
  fix d
  assume "aggregate L now feeds fetch = Inr d"
  then have m: "merge_items L (cutoff_of now) (accepted L fetch feeds) [] = Inr d"
    by (simp add: aggregate_def merge_feeds_items)
  have "\<forall>(k, v) \<in> set d. k = rstrip_slash (link v) \<and> v \<in> set (accepted L fetch feeds)"
    by (rule merge_items_invariant [OF cutoff_of_aware m]) simp_all
  moreover have "\<And>v. v \<in> set (accepted L fetch feeds) \<Longrightarrow>
      \<exists>(ft, cat, e) \<in> set (visited fetch feeds).
         parse_entry L e ft cat = Some v \<and>
         Some (link v) = (if truthy (attr_link e) then attr_link e else get_link e)"
  proof -
    fix v
    assume "v \<in> set (accepted L fetch feeds)"
    then obtain ft cat e where in_v: "(ft, cat, e) \<in> set (visited fetch feeds)"
      and pe: "parse_entry L e ft cat = Some v"
      unfolding accepted_iff by blast
    have "Some (link v) = (if truthy (attr_link e) then attr_link e else get_link e)"
      using parse_entry_Some [OF pe] by (simp add: py_or_def)
    with in_v pe show "\<exists>(ft, cat, e) \<in> set (visited fetch feeds).
         parse_entry L e ft cat = Some v \<and>
         Some (link v) = (if truthy (attr_link e) then attr_link e else get_link e)"
      by blast
  qed
  ultimately show "\<forall>(k, v) \<in> set d.
             k = rstrip_slash (link v) \<and>
             (\<exists>(ft, cat, e) \<in> set (visited fetch feeds).
                parse_entry L e ft cat = Some v \<and>
                Some (link v) = (if truthy (attr_link e) then attr_link e else get_link e))"
    by blast
qed

text \<open>
  Two entries whose links differ by a trailing \<^verbatim>\<open>/\<close> and whose timestamps are equal: the
  first stays, under the key without the \<^verbatim>\<open>/\<close>, with its own link.
\<close>

theorem key_invariant_witness:
  "aggregate ex_lib 1707955200000000 [(''F'', ''http://f.example/rss'', ''dfir'')]
       (\<lambda>u. [empty_entry\<lparr>attr_title := Some ''A'', attr_link := Some ''http://e.com/p/'',
                 published_parsed := Some (StructTime 2024 2 1 0 0 0 3 32 0)\<rparr>,
               empty_entry\<lparr>attr_title := Some ''B'', attr_link := Some ''http://e.com/p'',
                 published_parsed := Some (StructTime 2024 2 1 0 0 0 3 32 0)\<rparr>])
   = Inr [(''http://e.com/p'',
           \<lparr>title = ''A'', link = ''http://e.com/p/'', summary = [], source = ''F'',
            category = ''dfir'', published = Some ''2024-02-01T00:00:00+00:00''\<rparr>)]
   \<and> ''http://e.com/p'' = rstrip_slash ''http://e.com/p/''"
proof -
  let ?feeds = "[(''F'', ''http://f.example/rss'', ''dfir'')]"
  let ?fetch = "\<lambda>u::string. [empty_entry\<lparr>attr_title := Some ''A'', attr_link := Some ''http://e.com/p/'',
                 published_parsed := Some (StructTime 2024 2 1 0 0 0 3 32 0)\<rparr>,
               empty_entry\<lparr>attr_title := Some ''B'', attr_link := Some ''http://e.com/p'',
                 published_parsed := Some (StructTime 2024 2 1 0 0 0 3 32 0)\<rparr>]"
  let ?a = "\<lparr>title = ''A'', link = ''http://e.com/p/'', summary = [], source = ''F'',
            category = ''dfir'', published = Some ''2024-02-01T00:00:00+00:00''\<rparr>"
  have c: "aggregate ex_lib 1707955200000000 ?feeds ?fetch = Inr [(''http://e.com/p'', ?a)]"
    by (simp add: run_defs)
  have "\<forall>(k, v) \<in> set [(''http://e.com/p'', ?a)]. k = rstrip_slash (link v)"
    using key_invariant [of ex_lib 1707955200000000 ?feeds ?fetch] c by blast
  then have k: "''http://e.com/p'' = rstrip_slash ''http://e.com/p/''" by simp
  let ?b = "empty_entry\<lparr>attr_title := Some ''B'', attr_link := Some ''http://e.com/p'',
                 published_parsed := Some (StructTime 2024 2 1 0 0 0 3 32 0)\<rparr>"
  have step: "merge_entry ex_lib (cutoff_of 1707955200000000) ''F'' ''dfir'' ?b
                [(''http://e.com/p'', ?a)] = Inr [(''http://e.com/p'', ?a)]"
    by (simp add: run_defs)
  have "(\<forall>(k, v) \<in> set [(''http://e.com/p'', ?a)]. k = rstrip_slash (link v)) \<and>
        merge_entry ex_lib (cutoff_of 1707955200000000) ''F'' ''dfir'' ?b
          [(''http://e.com/p'', ?a)] = Inr [(''http://e.com/p'', ?a)]
        \<longrightarrow> (\<forall>(k, v) \<in> set [(''http://e.com/p'', ?a)]. k = rstrip_slash (link v))"
    using key_invariant [of ex_lib 1707955200000000 ?feeds ?fetch] by blast
  with c k show ?thesis by simp
qed

subsection \<open>The timestamps that the loop stores are aware\<close>

lemma entry_published_aware: "entry_published L e = Some d \<Longrightarrow> tzinfo d \<noteq> None"
  by (auto simp: entry_published_def fromtimestamp_utc_def replace_tzinfo_utc_def
      split: option.splits if_splits)

lemma parse_entry_aware:
  assumes "iso_keeps_tz L" "parse_entry L e ft cat = Some x"
  shows "aware_item L x"
proof (cases "existing_dt_of L x")
  case None
  then show ?thesis by (simp add: aware_item_def)
next
  case (Some d')
  have p: "published x = map_option (isoformat L) (entry_published L e)"
    using parse_entry_Some [OF assms(2)] by simp
  from Some obtain s where s: "published x = Some s" "fromisoformat L s = Some d'"
    by (auto simp: existing_dt_of_def split: option.splits if_splits)
  with p obtain d where d: "entry_published L e = Some d" "s = isoformat L d"
    by (cases "entry_published L e") auto
  have "tzinfo d \<noteq> None" using entry_published_aware [OF d(1)] .
  with assms(1) s(2) d(2) have "tzinfo d' \<noteq> None"
    unfolding iso_keeps_tz_def by blast
  then show ?thesis by (simp add: aware_item_def Some)
qed

lemma accepted_aware:
  "iso_keeps_tz L \<Longrightarrow> x \<in> set (accepted L fetch feeds) \<Longrightarrow> aware_item L x"
  unfolding accepted_iff using parse_entry_aware by blast

lemma stored_items_aware:
  assumes "iso_keeps_tz L" "aggregate L now feeds fetch = Inr d"
  shows "\<forall>(k, v) \<in> set d. aware_item L v"
proof -
  have m: "merge_items L (cutoff_of now) (accepted L fetch feeds) [] = Inr d"
    using assms(2) by (simp add: aggregate_def merge_feeds_items)
  show ?thesis
    by (rule merge_items_invariant [OF cutoff_of_aware m])
       (simp_all add: accepted_aware [OF assms(1)])
qed


subsection \<open>The merge without errors\<close>







subsection \<open>Keys and values of the folded merge\<close>







subsection \<open>Running the merge twice\<close>










subsection \<open>The sorted output\<close>

lemma sort_key_py_unknown:
  "published x = None \<or> (\<exists>s. published x = Some s \<and> fromisoformat L s = None) \<Longrightarrow>
   sort_key_py L x = 0"
  by (auto simp: sort_key_py_def)

lemma sorted_items_descending:
  assumes "i < j" "j < length (sorted_items L d)"
  shows "sort_key_py L (sorted_items L d ! j) \<le> sort_key_py L (sorted_items L d ! i)"
proof -
  let ?out = "sorted_items L d"
  let ?ks = "map (\<lambda>x. - sort_key_py L x) ?out"
  have "sorted ?ks" unfolding sorted_items_def by (rule sorted_sort_key)
  then have "?ks ! i \<le> ?ks ! j"
    using assms by (simp add: sorted_iff_nth_mono)
  then show ?thesis using assms by simp
qed

text \<open>
  Claim C8. The output sequence holds exactly the values of the dictionary; it is in
  descending order of the sort key; an item whose \<open>published\<close> is absent or cannot be
  parsed has the key \<open>0\<close>; so every such item stays in the output as it is, and stands after
  every item whose key is positive. The snapshot carries this sequence and its length.
\<close>

theorem writer_sorts_descending:
  "mset (sorted_items L d) = mset (map snd d)
   \<and> set (sorted_items L d) = snd ` set d
   \<and> (\<forall>i j. i < j \<and> j < length (sorted_items L d)
        \<longrightarrow> sort_key_py L (sorted_items L d ! j) \<le> sort_key_py L (sorted_items L d ! i))
   \<and> (\<forall>x. published x = None \<or> (\<exists>s. published x = Some s \<and> fromisoformat L s = None)
        \<longrightarrow> sort_key_py L x = 0)
   \<and> (\<forall>i j. i < length (sorted_items L d) \<and> j < length (sorted_items L d) \<and>
            0 < sort_key_py L (sorted_items L d ! i) \<and>
            (published (sorted_items L d ! j) = None \<or>
             (\<exists>s. published (sorted_items L d ! j) = Some s \<and> fromisoformat L s = None))
        \<longrightarrow> i < j)
   \<and> items (out_data L now' d) = sorted_items L d
   \<and> total_items (out_data L now' d) = length d"
proof (intro conjI allI impI)
  show m: "mset (sorted_items L d) = mset (map snd d)"
    by (simp add: sorted_items_def)
  show "set (sorted_items L d) = snd ` set d"
    by (simp add: sorted_items_def)
  show "items (out_data L now' d) = sorted_items L d"
    by (simp add: out_data_def)
  show "total_items (out_data L now' d) = length d"
    by (simp add: out_data_def sorted_items_def)
next
  fix i j
  assume "i < j \<and> j < length (sorted_items L d)"
  then show "sort_key_py L (sorted_items L d ! j) \<le> sort_key_py L (sorted_items L d ! i)"
    using sorted_items_descending by blast
next
  fix x :: news_item
  assume "published x = None \<or> (\<exists>s. published x = Some s \<and> fromisoformat L s = None)"
  then show "sort_key_py L x = 0" by (rule sort_key_py_unknown)
next
  fix i j
  let ?out = "sorted_items L d"
  assume h: "i < length ?out \<and> j < length ?out \<and> 0 < sort_key_py L (?out ! i) \<and>
            (published (?out ! j) = None \<or>
             (\<exists>s. published (?out ! j) = Some s \<and> fromisoformat L s = None))"
  then have z: "sort_key_py L (?out ! j) = 0" using sort_key_py_unknown by blast
  show "i < j"
  proof (rule ccontr)
    assume "\<not> i < j"
    then consider "i = j" | "j < i" by linarith
    then show False
    proof cases
      case 1
      then show False using h z by simp
    next
      case 2
      then have "sort_key_py L (?out ! i) \<le> sort_key_py L (?out ! j)"
        using sorted_items_descending [of j i L d] h by simp
      then show False using h z by simp
    qed
  qed
qed

text \<open>What \<^const>\<open>main\<close> returns: no feed list, no run; otherwise the snapshot of the aggregation.\<close>

lemma main_no_opml: "main L now now' None fetch = Inl SystemExit"
  by (simp add: main_def)

lemma main_snapshot:
  "main L now now' (Some tree_root) fetch = Inr snap \<Longrightarrow>
   \<exists>d. aggregate L now (parse_opml L tree_root) fetch = Inr d \<and>
       items snap = sorted_items L d \<and> total_items snap = length d \<and> days_back snap = 30"
  by (auto simp: main_def out_data_def sorted_items_def DAYS_BACK_def split: sum.splits)

theorem writer_sorts_descending_witness:
  "sorted_items ex_lib
     [(''http://e.com/q'',
       \<lparr>title = ''Undated'', link = ''http://e.com/q'', summary = [], source = ''F'',
        category = ''dfir'', published = None\<rparr>),
      (''http://e.com/p'',
       \<lparr>title = ''Jan'', link = ''http://e.com/p'', summary = [], source = ''F'',
        category = ''dfir'', published = Some ''2024-01-01T00:00:00+00:00''\<rparr>),
      (''http://e.com/r'',
       \<lparr>title = ''Feb'', link = ''http://e.com/r'', summary = [], source = ''F'',
        category = ''dfir'', published = Some ''2024-02-01T00:00:00+00:00''\<rparr>)]
   = [\<lparr>title = ''Feb'', link = ''http://e.com/r'', summary = [], source = ''F'',
        category = ''dfir'', published = Some ''2024-02-01T00:00:00+00:00''\<rparr>,
      \<lparr>title = ''Jan'', link = ''http://e.com/p'', summary = [], source = ''F'',
        category = ''dfir'', published = Some ''2024-01-01T00:00:00+00:00''\<rparr>,
      \<lparr>title = ''Undated'', link = ''http://e.com/q'', summary = [], source = ''F'',
        category = ''dfir'', published = None\<rparr>]
   \<and> sort_key_py ex_lib
       \<lparr>title = ''Undated'', link = ''http://e.com/q'', summary = [], source = ''F'',
        category = ''dfir'', published = None\<rparr> = 0
   \<and> sort_key_py ex_lib
       \<lparr>title = ''Jan'', link = ''http://e.com/p'', summary = [], source = ''F'',
        category = ''dfir'', published = Some ''2024-01-01T00:00:00+00:00''\<rparr> = 1704067200"
proof -
  let ?u = "\<lparr>title = ''Undated'', link = ''http://e.com/q'', summary = [], source = ''F'',
        category = ''dfir'', published = None\<rparr>"
  let ?j = "\<lparr>title = ''Jan'', link = ''http://e.com/p'', summary = [], source = ''F'',
        category = ''dfir'', published = Some ''2024-01-01T00:00:00+00:00''\<rparr>"
  let ?f = "\<lparr>title = ''Feb'', link = ''http://e.com/r'', summary = [], source = ''F'',
        category = ''dfir'', published = Some ''2024-02-01T00:00:00+00:00''\<rparr>"
  let ?d = "[(''http://e.com/q'', ?u), (''http://e.com/p'', ?j), (''http://e.com/r'', ?f)]"
  have kj: "sort_key_py ex_lib ?j = 1704067200"
    by (simp add: sort_key_py_def ex_lib_def ex_fromisoformat_def ex_iso_table_def
        ex_timestamp_def utc_instant_def)
  have kf: "sort_key_py ex_lib ?f = 1706745600"
    by (simp add: sort_key_py_def ex_lib_def ex_fromisoformat_def ex_iso_table_def
        ex_timestamp_def utc_instant_def)
  have ku0: "sort_key_py ex_lib ?u = 0" by (simp add: sort_key_py_def)
  have out: "sorted_items ex_lib ?d = [?f, ?j, ?u]"
    by (simp add: sorted_items_def kj kf ku0)
  note w = writer_sorts_descending [of ex_lib ?d 0]
  have "published ?u = None \<or> (\<exists>s. published ?u = Some s \<and> fromisoformat ex_lib s = None)
        \<longrightarrow> sort_key_py ex_lib ?u = 0"
    using w [THEN conjunct2, THEN conjunct2, THEN conjunct2, THEN conjunct1] by blast
  then have ku: "sort_key_py ex_lib ?u = 0" by simp
  have len: "length (sorted_items ex_lib ?d) = 3" by (simp add: out)
  have "(1::nat) < 2 \<and> 2 < length (sorted_items ex_lib ?d) \<longrightarrow>
        sort_key_py ex_lib (sorted_items ex_lib ?d ! 2) \<le> sort_key_py ex_lib (sorted_items ex_lib ?d ! 1)"
    using w [THEN conjunct2, THEN conjunct2, THEN conjunct1] by blast
  then have "sort_key_py ex_lib ?u \<le> sort_key_py ex_lib ?j"
    by (simp add: len) (simp add: out)
  moreover have "(0::nat) < length (sorted_items ex_lib ?d) \<and> 2 < length (sorted_items ex_lib ?d) \<and>
        0 < sort_key_py ex_lib (sorted_items ex_lib ?d ! 0) \<and>
        (published (sorted_items ex_lib ?d ! 2) = None \<or>
         (\<exists>s. published (sorted_items ex_lib ?d ! 2) = Some s \<and> fromisoformat ex_lib s = None))
        \<longrightarrow> (0::nat) < 2"
    using w [THEN conjunct2, THEN conjunct2, THEN conjunct2, THEN conjunct2, THEN conjunct1]
    by blast
  ultimately show ?thesis using out ku kj by simp
qed

subsection \<open>The subscription list\<close>










end
